theory Spec2Isabelle
  imports Main "HOL-Library.Sublist"
begin

section \<open>Strings, paths and files\<close>

text \<open>
  A Python \<open>str\<close> is a sequence of Unicode code points, so a character is modelled by its
  code point and a string by a list of code points. \<open>str\<close> turns an ASCII literal of the
  source into such a string.
\<close>

type_synonym pychar = nat
type_synonym pystr = "pychar list"

definition str :: "string \<Rightarrow> pystr" where
  "str s = map of_char s"

text \<open>
  \<open>c.isalnum()\<close> for a single character. On ASCII it holds exactly for the digits and the
  letters. Beyond ASCII it is decided by the Unicode database of the interpreter, which is
  not part of the repository: that part is the parameter \<open>uni\<close>.
\<close>

definition isalnum :: "(pychar \<Rightarrow> bool) \<Rightarrow> pychar \<Rightarrow> bool" where
  "isalnum uni c =
     (if c < 128
      then (48 \<le> c \<and> c \<le> 57) \<or> (65 \<le> c \<and> c \<le> 90) \<or> (97 \<le> c \<and> c \<le> 122)
      else uni c)"

text \<open>
  \<^verbatim>\<open>
  def sanitize_filename(filename):
      return "".join(c if c.isalnum() or c in " -_" else "_" for c in filename)
  \<close>
\<close>

definition sanitize_filename :: "(pychar \<Rightarrow> bool) \<Rightarrow> pystr \<Rightarrow> pystr" where
  "sanitize_filename uni filename =
     concat (map (\<lambda>c. if isalnum uni c \<or> c \<in> set (str '' -_'') then [c] else str ''_'') filename)"

section \<open>The world: file system and external services\<close>

text \<open>
  A path is its list of components: \<open>Path("dataset", "top_genres") / "songs.csv"\<close> has
  three. Appending one component is \<open>p / name\<close> for a \<open>name\<close> without separator, which
  is what every file name built by the pipeline is (a sanitised name contains no slash);
  genres are taken to be single components, as all of \<open>GENRES\<close> are.

  A file is the sequence of what was written to it: rows written by \<open>csv.writer\<close> and
  binary data written by the media source or the codec.
\<close>

type_synonym path = "pystr list"

datatype chunk = Row "pystr list" | Blob pystr

type_synonym fdata = "chunk list"

datatype error =
    ApiError | AttributeError | KeyError | IndexError | StreamError | DownloadError
  | CalledProcessError int | FileNotFoundError | IsADirectoryError | PermissionError
  | UnicodeEncodeError

text \<open>
  Every interaction with the outside is recorded, oldest first: a catalog search request
  (\<open>q\<close>, \<open>type\<close>, \<open>limit\<close>, \<open>offset\<close>), \<open>time.sleep\<close> with its seconds, a media-source
  search with its query, a stream download with its target file, a started process with
  its argument vector, and \<open>mkdir(parents=True, exist_ok=True)\<close> with its directory.
\<close>

datatype action =
    SpSearch pystr pystr int int
  | Sleep nat
  | YtSearch pystr
  | Download path
  | Subprocess "pystr list"
  | Mkdir path

record world =
  files :: "path \<Rightarrow> fdata option"
  trace :: "action list"

text \<open>
  The catalog's answer is a JSON object; a key that may be missing is an option. A track
  is \<open>{duration_ms, name, artists: [{name}]}\<close>.
\<close>

record track =
  duration_ms :: "int option"
  name :: "pystr option"
  artists :: "pystr option list option"

record page =
  items :: "track list option"

record response =
  tracks :: "page option"

text \<open>
  A media-source result offers \<open>streams.get_audio_only()\<close>, which may fail; the stream's
  \<open>download\<close> either completes with the data, or is interrupted and leaves a partial file
  or nothing.
\<close>

datatype dl = Completed pystr | Interrupted "pystr option"

datatype stream = Stream (download: dl)

datatype video = Video (get_audio_only: "error + stream")

text \<open>
  The codec process: the binary is missing, or it exits with a code, having written the
  output file or not.
\<close>

datatype proc = Missing | Exited int "pystr option"

text \<open>
  The external services are arbitrary functions of the world at the moment of the call
  (files and history), so an answer may change from one call to the next. The operating
  system is one of them: \<open>open_error\<close> tells whether opening a file for appending is
  refused, and with which exception: \<open>FileNotFoundError\<close> when the directory of the file
  does not exist (as \<open>dataset/top_genres\<close> before the first \<open>mkdir\<close>), \<open>IsADirectoryError\<close>,
  \<open>PermissionError\<close>. Directories themselves are not part of the world; what was made
  of them is in the history.
\<close>

record env =
  sp_search :: "world \<Rightarrow> pystr \<Rightarrow> int \<Rightarrow> error + response"
  yt_search :: "world \<Rightarrow> pystr \<Rightarrow> error + video list"
  ffmpeg :: "world \<Rightarrow> path \<Rightarrow> path \<Rightarrow> proc"
  open_error :: "world \<Rightarrow> path \<Rightarrow> error option"
  unicode_alnum :: "pychar \<Rightarrow> bool"

definition log :: "action \<Rightarrow> world \<Rightarrow> world" where
  "log a w = w\<lparr>trace := trace w @ [a]\<rparr>"

definition exists :: "path \<Rightarrow> world \<Rightarrow> bool" where
  "exists p w = (files w p \<noteq> None)"

definition unlink :: "path \<Rightarrow> world \<Rightarrow> world" where
  \<comment> \<open>\<open>p.unlink(missing_ok=True)\<close>\<close>
  "unlink p w = w\<lparr>files := (files w)(p := None)\<rparr>"

definition write_file :: "path \<Rightarrow> fdata \<Rightarrow> world \<Rightarrow> world" where
  "write_file p d w = w\<lparr>files := (files w)(p \<mapsto> d)\<rparr>"

definition path_str :: "path \<Rightarrow> pystr" where
  \<comment> \<open>\<open>str(p)\<close> of a relative path\<close>
  "path_str p = (case p of [] \<Rightarrow> str ''.'' | c # cs \<Rightarrow> foldl (\<lambda>a b. a @ str ''/'' @ b) c cs)"

section \<open>const.py and the manifest\<close>

definition TOP_GENRES_PATH :: path where
  "TOP_GENRES_PATH = [str ''dataset'', str ''top_genres'']"

definition CSV_FILE :: path where
  "CSV_FILE = TOP_GENRES_PATH @ [str ''songs.csv'']"

definition GENRES :: "pystr list" where
  "GENRES = map str [''country'', ''electronic'', ''funk'', ''hip hop'', ''jazz'', ''latin'',
     ''metal'', ''polka'', ''pop'', ''punk'', ''reggae'', ''rock'', ''soul'']"

definition header :: "pystr list" where
  "header = [str ''Genre'', str ''Song Name'', str ''Artist Name'']"

definition open_append :: "path \<Rightarrow> world \<Rightarrow> world" where
  \<comment> \<open>\<open>open(mode='a')\<close> creates a missing file and keeps an existing one\<close>
  "open_append p w = (case files w p of None \<Rightarrow> write_file p [] w | Some _ \<Rightarrow> w)"

definition writerow :: "path \<Rightarrow> pystr list \<Rightarrow> world \<Rightarrow> world" where
  "writerow p r w = (case files w p of None \<Rightarrow> w | Some d \<Rightarrow> write_file p (d @ [Row r]) w)"

text \<open>
  \<^verbatim>\<open>
  def save_to_csv(file_path, genre, song_name, artist_name):
      file_exists = file_path.exists()
      with file_path.open(mode='a', newline='', encoding='utf-8') as csv_file:
          writer = csv.writer(csv_file)
          if not file_exists:
              writer.writerow(['Genre', 'Song Name', 'Artist Name'])  # Write header
          writer.writerow([genre, song_name, artist_name])
  \<close>
\<close>

text \<open>
  The file is opened with \<open>encoding='utf-8'\<close>: a string can be written when it has no
  surrogate code point (\<open>U+D800\<close> to \<open>U+DFFF\<close>), and writing any other raises
  \<open>UnicodeEncodeError\<close>.
\<close>

definition encodable :: "pystr \<Rightarrow> bool" where
  "encodable s = list_all (\<lambda>c. c < 55296 \<or> 57343 < c) s"

text \<open>
  \<open>Inr ()\<close> is the normal return, \<open>Inl e\<close> the exception \<open>e\<close> leaving the function.
  \<open>open\<close> raises before anything is changed. \<open>writerow\<close> hands the whole row to the file
  in one write, which raises when the row cannot be encoded: the row is then not written,
  and what was written before it (the header of a new file) is kept when the \<open>with\<close>
  block closes the file.
\<close>

definition save_to_csv ::
  "env \<Rightarrow> path \<Rightarrow> pystr \<Rightarrow> pystr \<Rightarrow> pystr \<Rightarrow> world \<Rightarrow> (error + unit) \<times> world" where
  "save_to_csv env file_path genre song_name artist_name w =
     (let file_exists = exists file_path w
      in case open_error env w file_path of
           Some e \<Rightarrow> (Inl e, w)
         | None \<Rightarrow>
             (let w1 = open_append file_path w;
                  w2 = (if \<not> file_exists then writerow file_path header w1 else w1)
              in if list_all encodable [genre, song_name, artist_name]
                 then (Inr (), writerow file_path [genre, song_name, artist_name] w2)
                 else (Inl UnicodeEncodeError, w2)))"

section \<open>Catalog fetcher\<close>

text \<open>An entry of the fetched batch: \<open>{'artist_name': ..., 'song_name': ...}\<close>.\<close>

record song =
  artist_name :: pystr
  song_name :: pystr

text \<open>
  The \<open>for track in tracks\<close> loop of \<open>get_songs_by_genre\<close>. \<open>results\<close> is mutated in
  place, so what was appended before an exception stays appended: the list is returned
  in both cases, with \<open>Inl\<close> the exception that left the loop. A song is appended before
  its row is saved, so when \<open>save_to_csv\<close> raises the song is in the list without a row.
  \<^verbatim>\<open>
            for track in tracks:
                if track['duration_ms'] < 30 * 1000:
                    continue
                artist_name = track['artists'][0]['name']
                song_name = track['name']
                results.append({'artist_name': artist_name, 'song_name': song_name})
                save_to_csv(CSV_FILE, genre, song_name, artist_name)
  \<close>
\<close>

fun process_tracks ::
  "env \<Rightarrow> pystr \<Rightarrow> track list \<Rightarrow> song list \<Rightarrow> world \<Rightarrow> (error + unit) \<times> song list \<times> world" where
  "process_tracks env genre [] results w = (Inr (), results, w)"
| "process_tracks env genre (t # ts) results w =
     (case duration_ms t of
        None \<Rightarrow> (Inl KeyError, results, w)
      | Some d \<Rightarrow>
          if d < 30 * 1000 then process_tracks env genre ts results w
          else (case artists t of
                  None \<Rightarrow> (Inl KeyError, results, w)
                | Some [] \<Rightarrow> (Inl IndexError, results, w)
                | Some (None # _) \<Rightarrow> (Inl KeyError, results, w)
                | Some (Some an # _) \<Rightarrow>
                    (case name t of
                       None \<Rightarrow> (Inl KeyError, results, w)
                     | Some sn \<Rightarrow>
                         (case save_to_csv env CSV_FILE genre sn an w of
                            (Inl e, w') \<Rightarrow>
                              (Inl e, results @ [\<lparr>artist_name = an, song_name = sn\<rparr>], w')
                          | (Inr u, w') \<Rightarrow>
                              process_tracks env genre ts
                                (results @ [\<lparr>artist_name = an, song_name = sn\<rparr>]) w'))))"

definition response_items :: "response \<Rightarrow> track list" where
  \<comment> \<open>\<open>response.get('tracks', {}).get('items', [])\<close>\<close>
  "response_items r =
     (case tracks r of None \<Rightarrow> [] | Some p \<Rightarrow> (case items p of None \<Rightarrow> [] | Some ts \<Rightarrow> ts))"

text \<open>
  The body of the \<open>try\<close> block: \<open>Inr ()\<close> when it reached one of its two \<open>return results\<close>,
  \<open>Inl e\<close> when \<open>e\<close> was raised.
\<close>

definition attempt :: "env \<Rightarrow> pystr \<Rightarrow> int \<Rightarrow> song list \<Rightarrow> world \<Rightarrow> (error + unit) \<times> song list \<times> world" where
  "attempt env genre offset results w =
     (let q = str ''genre:'' @ genre;
          w1 = log (SpSearch q (str ''track'') 50 offset) w
      in case sp_search env w q offset of
           Inl e \<Rightarrow> (Inl e, results, w1)
         | Inr response \<Rightarrow>
             (let ts = response_items response
              in if ts = [] then (Inr (), results, w1)
                 else process_tracks env genre ts results w1))"

text \<open>
  \<^verbatim>\<open>
    results = []
    retries = 0
    while retries < max_calls:
        try:
            ...
            return results
        except Exception as e:
            retries += 1
            time.sleep(1)
    return results
  \<close>
  Every statement that can raise is inside the \<open>try\<close>, whose handler catches every
  \<open>Exception\<close>: the function has no exceptional result.
\<close>

function retry_loop ::
  "env \<Rightarrow> pystr \<Rightarrow> int \<Rightarrow> int \<Rightarrow> int \<Rightarrow> song list \<Rightarrow> world \<Rightarrow> song list \<times> world" where
  "retry_loop env genre offset max_calls retries results w =
     (if retries < max_calls then
        (case attempt env genre offset results w of
           (Inr u, results', w') \<Rightarrow> (results', w')
         | (Inl e, results', w') \<Rightarrow>
             retry_loop env genre offset max_calls (retries + 1) results' (log (Sleep 1) w'))
      else (results, w))"
  by pat_completeness auto
termination
  by (relation "measure (\<lambda>(env, genre, offset, max_calls, retries, results, w). nat (max_calls - retries))") auto

declare retry_loop.simps [simp del]

definition get_songs_by_genre :: "env \<Rightarrow> pystr \<Rightarrow> int \<Rightarrow> int \<Rightarrow> world \<Rightarrow> song list \<times> world" where
  "get_songs_by_genre env genre offset max_calls w = retry_loop env genre offset max_calls 0 [] w"

section \<open>Transcoder and downloader\<close>

text \<open>
  \<open>subprocess.run([...], check=True, ...)\<close>: \<open>FileNotFoundError\<close> when the binary is
  missing, \<open>CalledProcessError\<close> when the exit code is not zero.
\<close>

definition subprocess_run_ffmpeg :: "env \<Rightarrow> path \<Rightarrow> path \<Rightarrow> world \<Rightarrow> (error + unit) \<times> world" where
  "subprocess_run_ffmpeg env input_path output_path w =
     (let w1 = log (Subprocess [str ''ffmpeg'', str ''-i'', path_str input_path, str ''-ar'',
                                str ''44100'', str ''-ac'', str ''2'', path_str output_path]) w
      in case ffmpeg env w input_path output_path of
           Missing \<Rightarrow> (Inl FileNotFoundError, w1)
         | Exited code out \<Rightarrow>
             (let w2 = (case out of None \<Rightarrow> w1 | Some d \<Rightarrow> write_file output_path [Blob d] w1)
              in if code = 0 then (Inr (), w2) else (Inl (CalledProcessError code), w2)))"

text \<open>
  \<^verbatim>\<open>
  def convert_to_wav(input_path, output_path):
      try:
          subprocess.run(
              ["ffmpeg", "-i", str(input_path), "-ar", "44100", "-ac", "2", str(output_path)],
              check=True, stdout=subprocess.PIPE, stderr=subprocess.PIPE
          )
      except Exception as e:
          print(f"Error converting {input_path} to .wav: {e}")
  \<close>
  The result is what the caller, itself inside a \<open>try\<close>, gets: \<open>Inr ()\<close> is a normal
  return (of \<open>None\<close>: the function has no \<open>return\<close> statement), \<open>Inl e\<close> an exception
  leaving the function.
\<close>

definition convert_to_wav :: "env \<Rightarrow> path \<Rightarrow> path \<Rightarrow> world \<Rightarrow> (error + unit) \<times> world" where
  "convert_to_wav env input_path output_path w =
     (case subprocess_run_ffmpeg env input_path output_path w of
        (Inr u, w') \<Rightarrow> (Inr (), w')
      | (Inl e, w') \<Rightarrow> (Inr (), w'))"

text \<open>
  The body of \<open>for song in songs\<close> in \<open>download_youtube_audio\<close>.
  \<^verbatim>\<open>
        sanitized_name = sanitize_filename(f"{song_name}-{artist_name}")
        wav_file_path = genre_path / f"{sanitized_name}.wav"
        if wav_file_path.exists():
            continue
        try:
            query = f"{song_name} {artist_name} audio"
            search = Search(query)
            videos = search.videos
            if not videos:
                continue
            yt = videos[0]
            audio_stream = yt.streams.get_audio_only()
            temp_file_path = genre_path / f"{sanitized_name}.m4a"
            audio_stream.download(output_path=genre_path, filename=f"{sanitized_name}.m4a")
            convert_to_wav(temp_file_path, wav_file_path)
            temp_file_path.unlink(missing_ok=True)
        except Exception as e:
            print(f"Error processing {song_name} by {artist_name}: {e}")
  \<close>
\<close>

definition sanitized_name :: "env \<Rightarrow> song \<Rightarrow> pystr" where
  "sanitized_name env s = sanitize_filename (unicode_alnum env) (song_name s @ str ''-'' @ artist_name s)"

definition wav_file_path :: "env \<Rightarrow> path \<Rightarrow> song \<Rightarrow> path" where
  "wav_file_path env genre_path s = genre_path @ [sanitized_name env s @ str ''.wav'']"

definition temp_file_path :: "env \<Rightarrow> path \<Rightarrow> song \<Rightarrow> path" where
  "temp_file_path env genre_path s = genre_path @ [sanitized_name env s @ str ''.m4a'']"

definition download_song :: "env \<Rightarrow> path \<Rightarrow> song \<Rightarrow> world \<Rightarrow> world" where
  "download_song env genre_path s w =
     (if exists (wav_file_path env genre_path s) w then w
      else
        (let query = song_name s @ str '' '' @ artist_name s @ str '' audio'';
             w1 = log (YtSearch query) w
         in case yt_search env w query of
              Inl e \<Rightarrow> w1
            | Inr [] \<Rightarrow> w1
            | Inr (yt # _) \<Rightarrow>
                (case get_audio_only yt of
                   Inl e \<Rightarrow> w1
                 | Inr audio_stream \<Rightarrow>
                     (let w2 = log (Download (temp_file_path env genre_path s)) w1
                      in case download audio_stream of
                           Interrupted None \<Rightarrow> w2
                         | Interrupted (Some d) \<Rightarrow> write_file (temp_file_path env genre_path s) [Blob d] w2
                         | Completed d \<Rightarrow>
                             (let w3 = write_file (temp_file_path env genre_path s) [Blob d] w2
                              in case convert_to_wav env (temp_file_path env genre_path s)
                                        (wav_file_path env genre_path s) w3 of
                                   (Inl e, w4) \<Rightarrow> w4
                                 | (Inr u, w4) \<Rightarrow> unlink (temp_file_path env genre_path s) w4)))))"

text \<open>The \<open>for song in songs\<close> loop.\<close>

fun download_songs :: "env \<Rightarrow> path \<Rightarrow> song list \<Rightarrow> world \<Rightarrow> world" where
  "download_songs env genre_path [] w = w"
| "download_songs env genre_path (s # songs) w =
     download_songs env genre_path songs (download_song env genre_path s w)"

text \<open>
  \<^verbatim>\<open>
  def download_youtube_audio(songs, genre, output_path="dataset/top_genres"):
      genre_path = Path(output_path) / genre
      genre_path.mkdir(parents=True, exist_ok=True)
      for song in songs:
          ...
  \<close>
  \<open>mkdir\<close> is outside every \<open>try\<close>: when it raises (a file stands where a directory is
  needed) the whole program ends there. The model follows the runs in which it returns.
\<close>

definition download_youtube_audio :: "env \<Rightarrow> song list \<Rightarrow> pystr \<Rightarrow> path \<Rightarrow> world \<Rightarrow> world" where
  "download_youtube_audio env songs genre output_path w =
     (let genre_path = output_path @ [genre]
      in download_songs env genre_path songs (log (Mkdir genre_path) w))"

section \<open>Pipeline driver\<close>

text \<open>
  \<^verbatim>\<open>
        offset = 0
        total_songs_fetched = 0
        while total_songs_fetched < songs_per_genre:
            songs = get_songs_by_genre(genre, offset, max_api_calls)
            if not songs:
                break
            download_youtube_audio(songs, genre)
            total_songs_fetched += len(songs)
            offset += 50
  \<close>
  The loop returns its final \<open>offset\<close>, \<open>total_songs_fetched\<close> and world, and before them
  the list of the fetches it made, oldest first: for each call of \<open>get_songs_by_genre\<close>
  the offset passed, \<open>total_songs_fetched\<close> at that moment and the batch returned.
\<close>

record fetch =
  at_offset :: int
  fetched_before :: int
  batch :: "song list"

function build_while ::
  "env \<Rightarrow> pystr \<Rightarrow> int \<Rightarrow> int \<Rightarrow> int \<Rightarrow> int \<Rightarrow> world \<Rightarrow> fetch list \<times> int \<times> int \<times> world" where
  "build_while env genre songs_per_genre max_api_calls offset total_songs_fetched w =
     (if total_songs_fetched < songs_per_genre then
        (case get_songs_by_genre env genre offset max_api_calls w of
           (songs, w1) \<Rightarrow>
             if songs = []
             then ([\<lparr>at_offset = offset, fetched_before = total_songs_fetched, batch = songs\<rparr>],
                   offset, total_songs_fetched, w1)
             else
               (case build_while env genre songs_per_genre max_api_calls (offset + 50)
                       (total_songs_fetched + int (length songs))
                       (download_youtube_audio env songs genre TOP_GENRES_PATH w1) of
                  (fs, r) \<Rightarrow>
                    (\<lparr>at_offset = offset, fetched_before = total_songs_fetched, batch = songs\<rparr> # fs, r)))
      else ([], offset, total_songs_fetched, w))"
  by pat_completeness auto
termination
  by (relation "measure (\<lambda>(env, genre, songs_per_genre, max_api_calls, offset, total_songs_fetched, w).
        nat (songs_per_genre - total_songs_fetched))") auto

declare build_while.simps [simp del]

text \<open>\<open>build(genres, songs_per_genre, max_api_calls)\<close>: the genres one after the other.\<close>

fun build :: "env \<Rightarrow> pystr list \<Rightarrow> int \<Rightarrow> int \<Rightarrow> world \<Rightarrow> world" where
  "build env [] songs_per_genre max_api_calls w = w"
| "build env (genre # genres) songs_per_genre max_api_calls w =
     build env genres songs_per_genre max_api_calls
       (snd (snd (snd (build_while env genre songs_per_genre max_api_calls 0 0 w))))"

section \<open>Notions used to state the properties\<close>

text \<open>
  The manifest row of a fetched song. \<open>extends_manifest old rows new\<close>: the file \<open>new\<close> is
  the file \<open>old\<close> with \<open>rows\<close> appended, where a file that did not exist either still does
  not exist (and no row was appended) or was created with the header row first.
\<close>

definition manifest_row :: "pystr \<Rightarrow> song \<Rightarrow> chunk" where
  "manifest_row genre s = Row [genre, song_name s, artist_name s]"

definition extends_manifest :: "fdata option \<Rightarrow> chunk list \<Rightarrow> fdata option \<Rightarrow> bool" where
  "extends_manifest old rows new =
     (case old of
        Some d \<Rightarrow> new = Some (d @ rows)
      | None \<Rightarrow> (new = None \<and> rows = []) \<or> new = Some (Row header # rows))"

definition is_manifest_row :: "pystr list \<Rightarrow> chunk \<Rightarrow> bool" where
  "is_manifest_row genres c = (case c of Row [g, sn, an] \<Rightarrow> g \<in> set genres | _ \<Rightarrow> False)"

text \<open>Song \<open>s\<close> is the entry made from track \<open>t\<close>, and \<open>t\<close> lasts 30 seconds or more.\<close>

definition from_long_track :: "song \<Rightarrow> track \<Rightarrow> bool" where
  "from_long_track s t =
     ((case duration_ms t of None \<Rightarrow> False | Some d \<Rightarrow> 30000 \<le> d) \<and>
      name t = Some (song_name s) \<and>
      (case artists t of Some (a # _) \<Rightarrow> a = Some (artist_name s) | _ \<Rightarrow> False))"

text \<open>Track \<open>t\<close> is in an answer of the catalog to the request of this genre and offset.\<close>

abbreviation served :: "env \<Rightarrow> pystr \<Rightarrow> int \<Rightarrow> track \<Rightarrow> bool" where
  "served env genre offset t \<equiv>
     (\<exists>w0 r. sp_search env w0 (str ''genre:'' @ genre) offset = Inr r \<and> t \<in> set (response_items r))"

text \<open>The number of catalog search requests and of codec runs made so far.\<close>

fun is_sp_search :: "action \<Rightarrow> bool" where
  "is_sp_search (SpSearch _ _ _ _) = True"
| "is_sp_search _ = False"

fun is_subprocess :: "action \<Rightarrow> bool" where
  "is_subprocess (Subprocess _) = True"
| "is_subprocess _ = False"

definition catalog_requests :: "world \<Rightarrow> nat" where
  "catalog_requests w = length (filter is_sp_search (trace w))"

definition codec_runs :: "world \<Rightarrow> nat" where
  "codec_runs w = length (filter is_subprocess (trace w))"

text \<open>
  The media source answers the search for the song with at least one result, the first
  result has an audio stream, and the download of that stream completes.
\<close>

definition download_completes :: "env \<Rightarrow> song \<Rightarrow> world \<Rightarrow> bool" where
  "download_completes env s w =
     (case yt_search env w (song_name s @ str '' '' @ artist_name s @ str '' audio'') of
        Inr (yt # _) \<Rightarrow>
          (case get_audio_only yt of
             Inr audio_stream \<Rightarrow>
               (case download audio_stream of Completed _ \<Rightarrow> True | Interrupted _ \<Rightarrow> False)
           | Inl _ \<Rightarrow> False)
      | _ \<Rightarrow> False)"

abbreviation batch_size :: "fetch \<Rightarrow> int" where
  "batch_size f \<equiv> int (length (batch f))"

section \<open>Example inputs\<close>

definition world0 :: world where
  "world0 = \<lparr>files = Map.empty, trace = []\<rparr>"

text \<open>Services that give the same answer to every call, on a system where every file can be
  opened (the directories are there).\<close>

definition example_env :: "(error + response) \<Rightarrow> (error + video list) \<Rightarrow> proc \<Rightarrow> env" where
  "example_env catalog media codec =
     \<lparr>sp_search = (\<lambda>w q offset. catalog), yt_search = (\<lambda>w query. media),
      ffmpeg = (\<lambda>w i out. codec), open_error = (\<lambda>w p. None),
      unicode_alnum = (\<lambda>c. False)\<rparr>"

text \<open>The same services in a fresh working directory: a file can be opened only once the
  directory it is in was made.\<close>

fun makes_dir :: "path \<Rightarrow> action \<Rightarrow> bool" where
  "makes_dir d (Mkdir p) = prefix d p"
| "makes_dir d _ = False"

definition fresh_dir :: "env \<Rightarrow> env" where
  "fresh_dir env =
     env\<lparr>open_error :=
           (\<lambda>w p. if butlast p = [] \<or> list_ex (makes_dir (butlast p)) (trace w) then None
                  else Some FileNotFoundError)\<rparr>"

definition catalog_down :: env where
  "catalog_down = example_env (Inl ApiError) (Inl ApiError) Missing"

definition long_track :: track where
  "long_track = \<lparr>duration_ms = Some 200000, name = Some (str ''So What''),
                 artists = Some [Some (str ''Miles Davis'')]\<rparr>"

definition short_track :: track where
  "short_track = \<lparr>duration_ms = Some 29999, name = Some (str ''Intro''),
                  artists = Some [Some (str ''Nobody'')]\<rparr>"

definition page_of :: "track list \<Rightarrow> response" where
  "page_of ts = \<lparr>tracks = Some \<lparr>items = Some ts\<rparr>\<rparr>"

definition so_what :: song where
  "so_what = \<lparr>artist_name = str ''Miles Davis'', song_name = str ''So What''\<rparr>"

text \<open>A catalog with one short and one long track on every page, and a media source that is
  down: no download ever succeeds.\<close>

definition jazz_env :: env where
  "jazz_env = example_env (Inr (page_of [short_track, long_track])) (Inl ApiError) Missing"

definition jazz_run :: "fetch list \<times> int \<times> int \<times> world" where
  "jazz_run = build_while jazz_env (str ''jazz'') 2 5 0 0 world0"

text \<open>A media source whose download completes, or is interrupted leaving a partial file.\<close>

definition media_ok :: "error + video list" where
  "media_ok = Inr [Video (Inr (Stream (Completed [1, 2, 3])))]"

definition media_cut :: "error + video list" where
  "media_cut = Inr [Video (Inr (Stream (Interrupted (Some [1]))))]"

definition jazz_path :: path where
  "jazz_path = TOP_GENRES_PATH @ [str ''jazz'']"

section \<open>Filename sanitisation\<close>

lemma str_sep [simp]: "str '' -_'' = [32, 45, 95]" "str ''_'' = [95]"
  by (simp_all add: str_def)

lemma sanitize_filename_map:
  "sanitize_filename uni s = map (\<lambda>c. if isalnum uni c \<or> c = 32 \<or> c = 45 \<or> c = 95 then c else 95) s"
  by (induction s) (simp_all add: sanitize_filename_def)

text \<open>
  C8. Every character of a sanitised file name is alphanumeric (in the sense of
  \<open>str.isalnum\<close>), a space (code point 32), a hyphen (45) or an underscore (95).
\<close>

theorem sanitize_filename_chars:
  "list_all (\<lambda>c. isalnum uni c \<or> c = 32 \<or> c = 45 \<or> c = 95) (sanitize_filename uni s)"
  by (auto simp add: sanitize_filename_map list_all_iff)

theorem sanitize_filename_chars_witness:
  "sanitize_filename (\<lambda>c. False) (str ''AC/DC: T.N.T'') = str ''AC_DC_ T_N_T'' \<and>
   list_all (\<lambda>c. isalnum (\<lambda>c. False) c \<or> c = 32 \<or> c = 45 \<or> c = 95)
     (sanitize_filename (\<lambda>c. False) (str ''AC/DC: T.N.T''))"
  using sanitize_filename_chars [of "\<lambda>c. False" "str ''AC/DC: T.N.T''"]
  by (simp add: sanitize_filename_map str_def isalnum_def)

text \<open>
  C9. A sanitised name is the input with each character kept when it is alphanumeric, a
  space, a hyphen or an underscore, and replaced in place by an underscore otherwise, so
  its length is that of the input; two different songs can therefore get the same name
  (here ``T.N.T'' by ``AC/DC'' and ``T_N_T'' by ``AC:DC'').
\<close>

theorem sanitize_filename_in_place:
  "sanitize_filename uni s =
     map (\<lambda>c. if isalnum uni c \<or> c = 32 \<or> c = 45 \<or> c = 95 then c else 95) s \<and>
   length (sanitize_filename uni s) = length s \<and>
   \<lparr>artist_name = str ''AC/DC'', song_name = str ''T.N.T''\<rparr> \<noteq>
     \<lparr>artist_name = str ''AC:DC'', song_name = str ''T_N_T''\<rparr> \<and>
   sanitized_name env \<lparr>artist_name = str ''AC/DC'', song_name = str ''T.N.T''\<rparr> =
     sanitized_name env \<lparr>artist_name = str ''AC:DC'', song_name = str ''T_N_T''\<rparr>"
  by (simp add: sanitize_filename_map sanitized_name_def str_def isalnum_def)

theorem sanitize_filename_in_place_witness:
  "sanitize_filename (\<lambda>c. False) (str ''a/b'') = str ''a_b'' \<and>
   length (sanitize_filename (\<lambda>c. False) (str ''a/b'')) = 3"
  using sanitize_filename_in_place [of "\<lambda>c. False" "str ''a/b''" jazz_env]
  by (simp add: str_def isalnum_def)

section \<open>Manifest writer\<close>

lemma log_simps [simp]:
  "trace (log a w) = trace w @ [a]" "files (log a w) = files w"
  by (simp_all add: log_def)

lemma world0_simps [simp]: "files world0 = Map.empty" "trace world0 = []"
  by (simp_all add: world0_def)

lemma extends_manifest_same [simp]: "extends_manifest old [] old"
  by (simp add: extends_manifest_def split: option.splits)

lemma extends_manifest_trans:
  "extends_manifest a r1 b \<Longrightarrow> extends_manifest b r2 c \<Longrightarrow> extends_manifest a (r1 @ r2) c"
  by (auto simp: extends_manifest_def split: option.splits)

lemma save_to_csv_spec:
  assumes "save_to_csv env p g sn an w = (r, w')"
  shows "trace w' = trace w" "files w' = (files w)(p := files w' p)"
    "extends_manifest (files w p) (case r of Inl e \<Rightarrow> [] | Inr u \<Rightarrow> [Row [g, sn, an]]) (files w' p)"
    "(r = Inr ()) = (open_error env w p = None \<and> list_all encodable [g, sn, an])"
  using assms
  by (auto simp: save_to_csv_def exists_def open_append_def writerow_def write_file_def Let_def
      extends_manifest_def split: option.splits if_splits)

lemma manifest_compose:
  assumes "subseq ss1 new1" "files w1 = (files w)(p := files w1 p)"
    "extends_manifest (files w p) (map f ss1) (files w1 p)"
    "subseq ss2 new2" "files w2 = (files w1)(p := files w2 p)"
    "extends_manifest (files w1 p) (map f ss2) (files w2 p)"
  shows "subseq (ss1 @ ss2) (new1 @ new2)" "files w2 = (files w)(p := files w2 p)"
    "extends_manifest (files w p) (map f (ss1 @ ss2)) (files w2 p)"
proof -
  show "subseq (ss1 @ ss2) (new1 @ new2)"
    using assms(1,4) by (rule list_emb_append_mono)
  have "files w2 = ((files w)(p := files w1 p))(p := files w2 p)"
    using assms(2,5) by simp
  then show "files w2 = (files w)(p := files w2 p)" by simp
  show "extends_manifest (files w p) (map f (ss1 @ ss2)) (files w2 p)"
    using extends_manifest_trans[OF assms(3,6)] by simp
qed

section \<open>Catalog fetcher\<close>

lemma process_tracks_spec:
  "process_tracks env genre ts results w = (r, results', w') \<Longrightarrow>
   \<exists>new ss. results' = results @ new \<and> (\<forall>s\<in>set new. \<exists>t\<in>set ts. from_long_track s t) \<and>
     subseq ss new \<and> files w' = (files w)(CSV_FILE := files w' CSV_FILE) \<and>
     extends_manifest (files w CSV_FILE) (map (manifest_row genre) ss) (files w' CSV_FILE) \<and>
     trace w' = trace w"
proof (induction env genre ts results w rule: process_tracks.induct)
  case (1 env genre results w)
  then show ?case by (intro exI[of _ "[]"]) auto
next
  case (2 env genre t ts results w)
  note stop = exI[of _ "[]", OF exI[of _ "[]"]]
  show ?case
  proof (cases "duration_ms t")
    case None
    with 2(3) show ?thesis by (intro stop) auto
  next
    case (Some d)
    show ?thesis
    proof (cases "d < 30 * 1000")
      case True
      with Some 2(3) have "process_tracks env genre ts results w = (r, results', w')" by simp
      from "2.IH"(1)[OF Some True this] show ?thesis by auto
    next
      case False
      show ?thesis
      proof (cases "artists t")
        case None
        with Some False 2(3) show ?thesis by (intro stop) auto
      next
        case as: (Some as)
        show ?thesis
        proof (cases as)
          case Nil
          with as Some False 2(3) show ?thesis by (intro stop) auto
        next
          case (Cons a rest)
          show ?thesis
          proof (cases a)
            case None
            with Cons as Some False 2(3) show ?thesis by (intro stop) auto
          next
            case an: (Some an)
            show ?thesis
            proof (cases "name t")
              case None
              with an Cons as Some False 2(3) show ?thesis by (intro stop) auto
            next
              case sn: (Some sn)
              let ?s = "\<lparr>artist_name = an, song_name = sn\<rparr>"
              obtain r1 w1 where sv: "save_to_csv env CSV_FILE genre sn an w = (r1, w1)"
                by (cases "save_to_csv env CSV_FILE genre sn an w") auto
              note s = save_to_csv_spec(1-3)[OF sv]
              have long: "from_long_track ?s t"
                using sn an Cons as Some False by (simp add: from_long_track_def)
              show ?thesis
              proof (cases r1)
                case (Inl e)
                with sv sn an Cons as Some False 2(3)
                have res: "results' = results @ [?s]" "w' = w1" by simp_all
                have "extends_manifest (files w CSV_FILE) (map (manifest_row genre) []) (files w' CSV_FILE)"
                  using s(3) Inl res by simp
                moreover have "subseq [] [?s]" by simp
                ultimately show ?thesis using res s(1,2) long
                  by (intro exI[of _ "[?s]"] exI[of _ "[]"]) auto
              next
                case (Inr u)
                with sv sn an Cons as Some False 2(3)
                have rec: "process_tracks env genre ts (results @ [?s]) w1 = (r, results', w')"
                  by simp
                from "2.IH"(2)[OF Some False as Cons an sn sv[symmetric] Inr rec]
                obtain new ss where new: "results' = (results @ [?s]) @ new"
                  "\<forall>s\<in>set new. \<exists>t\<in>set ts. from_long_track s t"
                  "subseq ss new" "files w' = (files w1)(CSV_FILE := files w' CSV_FILE)"
                  "extends_manifest (files w1 CSV_FILE) (map (manifest_row genre) ss) (files w' CSV_FILE)"
                  "trace w' = trace w1"
                  by blast
                have first: "extends_manifest (files w CSV_FILE) (map (manifest_row genre) [?s]) (files w1 CSV_FILE)"
                  using s(3) Inr by (simp add: manifest_row_def)
                have "subseq [?s] [?s]" by simp
                note c = manifest_compose[OF this s(2) first new(3,4,5)]
                show ?thesis using new(1,2,6) s(1) long c
                  by (intro exI[of _ "?s # new"] exI[of _ "?s # ss"]) auto
              qed
            qed
          qed
        qed
      qed
    qed
  qed
qed

lemma attempt_spec:
  assumes "attempt env genre offset results w = (r, results', w')"
  shows "\<exists>new ss. results' = results @ new \<and>
           (\<forall>s\<in>set new. \<exists>t. served env genre offset t \<and> from_long_track s t) \<and>
           subseq ss new \<and> files w' = (files w)(CSV_FILE := files w' CSV_FILE) \<and>
           extends_manifest (files w CSV_FILE) (map (manifest_row genre) ss) (files w' CSV_FILE)"
proof (cases "sp_search env w (str ''genre:'' @ genre) offset")
  case (Inl e)
  with assms show ?thesis
    by (intro exI[of _ "[]"]) (auto simp: attempt_def Let_def)
next
  case (Inr resp)
  show ?thesis
  proof (cases "response_items resp = []")
    case True
    with Inr assms show ?thesis
      by (intro exI[of _ "[]"]) (auto simp: attempt_def Let_def)
  next
    case False
    let ?w1 = "log (SpSearch (str ''genre:'' @ genre) (str ''track'') 50 offset) w"
    have "process_tracks env genre (response_items resp) results ?w1 = (r, results', w')"
      using assms Inr False by (simp add: attempt_def Let_def)
    from process_tracks_spec[OF this] obtain new ss where new: "results' = results @ new"
      "\<forall>s\<in>set new. \<exists>t\<in>set (response_items resp). from_long_track s t"
      "subseq ss new" "files w' = (files ?w1)(CSV_FILE := files w' CSV_FILE)"
      "extends_manifest (files ?w1 CSV_FILE) (map (manifest_row genre) ss) (files w' CSV_FILE)"
      by blast
    have "\<forall>s\<in>set new. \<exists>t. served env genre offset t \<and> from_long_track s t"
      using new(2) Inr by blast
    with new(1,3,4,5) show ?thesis by (intro exI[of _ new] exI[of _ ss]) simp
  qed
qed

lemma retry_loop_spec:
  "retry_loop env genre offset max_calls retries results w = (results', w') \<Longrightarrow>
   \<exists>new ss. results' = results @ new \<and>
     (\<forall>s\<in>set new. \<exists>t. served env genre offset t \<and> from_long_track s t) \<and>
     subseq ss new \<and> files w' = (files w)(CSV_FILE := files w' CSV_FILE) \<and>
     extends_manifest (files w CSV_FILE) (map (manifest_row genre) ss) (files w' CSV_FILE)"
proof (induction "nat (max_calls - retries)" arbitrary: retries results w)
  case 0
  then have "\<not> retries < max_calls" by simp
  with 0(2) have "results' = results" "w' = w" by (simp_all add: retry_loop.simps)
  then show ?case by (intro exI[of _ "[]"]) simp
next
  case (Suc n)
  then have lt: "retries < max_calls" and n: "n = nat (max_calls - (retries + 1))" by linarith+
  obtain r res1 w1 where att: "attempt env genre offset results w = (r, res1, w1)"
    by (cases "attempt env genre offset results w") auto
  from attempt_spec[OF att] obtain new1 ss1 where new1: "res1 = results @ new1"
    "\<forall>s\<in>set new1. \<exists>t. served env genre offset t \<and> from_long_track s t"
    "subseq ss1 new1" "files w1 = (files w)(CSV_FILE := files w1 CSV_FILE)"
    "extends_manifest (files w CSV_FILE) (map (manifest_row genre) ss1) (files w1 CSV_FILE)"
    by blast
  show ?case
  proof (cases r)
    case (Inr u)
    with att lt Suc.prems have "results' = res1" "w' = w1"
      by (simp_all add: retry_loop.simps)
    with new1 show ?thesis by (intro exI[of _ new1] exI[of _ ss1]) simp
  next
    case (Inl e)
    let ?w2 = "log (Sleep 1) w1"
    from Inl att lt Suc.prems
    have "retry_loop env genre offset max_calls (retries + 1) res1 ?w2 = (results', w')"
      by (simp add: retry_loop.simps)
    from Suc.hyps(1)[OF n this] obtain new2 ss2 where new2: "results' = res1 @ new2"
      "\<forall>s\<in>set new2. \<exists>t. served env genre offset t \<and> from_long_track s t"
      "subseq ss2 new2" "files w' = (files ?w2)(CSV_FILE := files w' CSV_FILE)"
      "extends_manifest (files ?w2 CSV_FILE) (map (manifest_row genre) ss2) (files w' CSV_FILE)"
      by blast
    have a: "files w' = (files w1)(CSV_FILE := files w' CSV_FILE)"
      and b: "extends_manifest (files w1 CSV_FILE) (map (manifest_row genre) ss2) (files w' CSV_FILE)"
      using new2(4,5) by simp_all
    note c = manifest_compose[OF new1(3,4,5) new2(3) a b]
    show ?thesis using new1(1,2) new2(1,2) c
      by (intro exI[of _ "new1 @ new2"] exI[of _ "ss1 @ ss2"]) auto
  qed
qed

lemma get_songs_spec:
  assumes "get_songs_by_genre env genre offset max_calls w = (results, w')"
  shows "(\<forall>s\<in>set results. \<exists>t. served env genre offset t \<and> from_long_track s t) \<and>
     (\<exists>ss. subseq ss results \<and> files w' = (files w)(CSV_FILE := files w' CSV_FILE) \<and>
        extends_manifest (files w CSV_FILE) (map (manifest_row genre) ss) (files w' CSV_FILE))"
  using retry_loop_spec[OF assms[unfolded get_songs_by_genre_def]] by auto

lemma jazz_fetch:
  "fst (get_songs_by_genre jazz_env (str ''jazz'') 0 5 world0) = [so_what]"
  "files (snd (get_songs_by_genre jazz_env (str ''jazz'') 0 5 world0)) CSV_FILE =
     Some [Row [str ''Genre'', str ''Song Name'', str ''Artist Name''],
           Row [str ''jazz'', str ''So What'', str ''Miles Davis'']]"
  by (simp_all add: get_songs_by_genre_def retry_loop.simps attempt_def jazz_env_def example_env_def
      page_of_def response_items_def short_track_def long_track_def so_what_def Let_def
      save_to_csv_def encodable_def str_def exists_def open_append_def writerow_def write_file_def
      header_def)

lemma jazz_fetch_fresh:
  "fst (get_songs_by_genre (fresh_dir jazz_env) (str ''jazz'') 0 3 world0) = [so_what, so_what, so_what]"
  "files (snd (get_songs_by_genre (fresh_dir jazz_env) (str ''jazz'') 0 3 world0)) CSV_FILE = None"
  by (simp_all add: get_songs_by_genre_def retry_loop.simps attempt_def jazz_env_def example_env_def
      fresh_dir_def page_of_def response_items_def short_track_def long_track_def so_what_def Let_def
      save_to_csv_def CSV_FILE_def TOP_GENRES_PATH_def)

text \<open>
  C6. Whatever the catalog answers, and whether or not the manifest can be written, every
  song in the batch returned by \<open>get_songs_by_genre\<close> was made from a track of an answer
  whose \<open>duration_ms\<close> is 30000 or more; and the call changes no file but the manifest, to
  which it appends only rows of returned songs, in their order (not necessarily of all of
  them: a song whose row could not be written is returned without a row). So no track
  shorter than 30 seconds gets into the batch or into the manifest.
\<close>

theorem get_songs_duration_filter:
  assumes "get_songs_by_genre env genre offset max_calls w = (results, w')"
  shows "(\<forall>s\<in>set results. \<exists>t. served env genre offset t \<and> from_long_track s t) \<and>
     (\<exists>ss. subseq ss results \<and> files w' = (files w)(CSV_FILE := files w' CSV_FILE) \<and>
        extends_manifest (files w CSV_FILE) (map (manifest_row genre) ss) (files w' CSV_FILE))"
  using get_songs_spec[OF assms] .

theorem get_songs_duration_filter_witness:
  "fst (get_songs_by_genre jazz_env (str ''jazz'') 0 5 world0) = [so_what] \<and>
   (\<exists>t. served jazz_env (str ''jazz'') 0 t \<and> from_long_track so_what t) \<and>
   files (snd (get_songs_by_genre jazz_env (str ''jazz'') 0 5 world0)) CSV_FILE =
     Some [Row [str ''Genre'', str ''Song Name'', str ''Artist Name''],
           Row [str ''jazz'', str ''So What'', str ''Miles Davis'']] \<and>
   fst (get_songs_by_genre (fresh_dir jazz_env) (str ''jazz'') 0 3 world0) =
     [so_what, so_what, so_what] \<and>
   files (snd (get_songs_by_genre (fresh_dir jazz_env) (str ''jazz'') 0 3 world0)) CSV_FILE = None"
proof -
  let ?R = "get_songs_by_genre jazz_env (str ''jazz'') 0 5 world0"
  have "?R = (fst ?R, snd ?R)" by simp
  note t = get_songs_duration_filter[OF this]
  have a: "fst ?R = [so_what]" by (rule jazz_fetch)
  from t a have "\<exists>t. served jazz_env (str ''jazz'') 0 t \<and> from_long_track so_what t"
    by simp
  then show ?thesis using jazz_fetch jazz_fetch_fresh by simp
qed

text \<open>
  C10. With \<open>max_calls\<close> zero or negative, \<open>get_songs_by_genre\<close> returns the empty list
  and leaves the world as it was: no catalog search request, no manifest row.
\<close>

theorem get_songs_no_calls:
  "max_calls \<le> 0 \<Longrightarrow> get_songs_by_genre env genre offset max_calls w = ([], w)"
  by (simp add: get_songs_by_genre_def retry_loop.simps)

theorem get_songs_no_calls_witness:
  "(0::int) \<le> 0 \<and> (- 2::int) \<le> 0 \<and>
   get_songs_by_genre jazz_env (str ''jazz'') 50 0 world0 = ([], world0) \<and>
   get_songs_by_genre jazz_env (str ''jazz'') 50 (- 2) world0 = ([], world0)"
  using get_songs_no_calls [of 0 jazz_env "str ''jazz''" 50 world0]
    get_songs_no_calls [of "- 2" jazz_env "str ''jazz''" 50 world0]
  by simp

lemma attempt_fail:
  assumes "\<forall>w q off. isl (sp_search env w q off)"
  shows "\<exists>e. attempt env genre offset results w =
     (Inl e, results, log (SpSearch (str ''genre:'' @ genre) (str ''track'') 50 offset) w)"
proof -
  have "isl (sp_search env w (str ''genre:'' @ genre) offset)"
    using assms by blast
  then obtain e where "sp_search env w (str ''genre:'' @ genre) offset = Inl e"
    by (cases "sp_search env w (str ''genre:'' @ genre) offset") auto
  then show ?thesis by (simp add: attempt_def Let_def)
qed

lemma retry_loop_fail:
  assumes fail: "\<forall>w q off. isl (sp_search env w q off)"
  shows "retry_loop env genre offset max_calls retries results w =
    (results, w\<lparr>trace := trace w @ concat (replicate (nat (max_calls - retries))
       [SpSearch (str ''genre:'' @ genre) (str ''track'') 50 offset, Sleep 1])\<rparr>)"
proof (induction "nat (max_calls - retries)" arbitrary: retries w)
  case 0
  then have "\<not> retries < max_calls" by simp
  then show ?case using 0 by (subst retry_loop.simps) simp
next
  case (Suc n)
  then have lt: "retries < max_calls" and n: "n = nat (max_calls - (retries + 1))" by linarith+
  let ?a = "SpSearch (str ''genre:'' @ genre) (str ''track'') 50 offset"
  obtain e where att: "attempt env genre offset results w = (Inl e, results, log ?a w)"
    using attempt_fail[OF fail] by blast
  have "retry_loop env genre offset max_calls retries results w =
        retry_loop env genre offset max_calls (retries + 1) results (log (Sleep 1) (log ?a w))"
    using lt att by (subst retry_loop.simps) simp
  also have "\<dots> = (results, (log (Sleep 1) (log ?a w))\<lparr>trace :=
      trace (log (Sleep 1) (log ?a w)) @ concat (replicate n [?a, Sleep 1])\<rparr>)"
    using Suc.hyps(1)[OF n] n by simp
  also have "\<dots> = (results, w\<lparr>trace := trace w @ concat (replicate (Suc n) [?a, Sleep 1])\<rparr>)"
    by (simp add: log_def)
  finally show ?case using Suc.hyps(2) by simp
qed

lemma count_requests:
  "length (filter is_sp_search (concat (replicate n [SpSearch q t l off, Sleep d]))) = n"
  by (induction n) simp_all

text \<open>
  C1, amended. When every catalog search call raises, \<open>get_songs_by_genre\<close> makes exactly
  \<open>max(max_calls, 0)\<close> search requests, each for the page of 50 at the given offset and
  each followed by a sleep of one second, does nothing else (the manifest is untouched),
  and returns the empty list. The count is \<open>max_calls\<close> itself only when \<open>max_calls\<close> is
  not negative.
\<close>

theorem get_songs_catalog_down:
  assumes "\<forall>w q off. isl (sp_search env w q off)"
  shows "get_songs_by_genre env genre offset max_calls w =
    ([], w\<lparr>trace := trace w @ concat (replicate (nat max_calls)
       [SpSearch (str ''genre:'' @ genre) (str ''track'') 50 offset, Sleep 1])\<rparr>) \<and>
    catalog_requests (snd (get_songs_by_genre env genre offset max_calls w)) =
      catalog_requests w + nat max_calls"
  using retry_loop_fail[OF assms, of genre offset max_calls 0 "[]" w]
  by (simp add: get_songs_by_genre_def catalog_requests_def count_requests)

lemma catalog_down_fails: "\<forall>w q off. isl (sp_search catalog_down w q off)"
  by (simp add: catalog_down_def example_env_def)

theorem get_songs_catalog_down_witness:
  "(\<forall>w q off. isl (sp_search catalog_down w q off)) \<and>
   fst (get_songs_by_genre catalog_down (str ''jazz'') 100 2 world0) = [] \<and>
   trace (snd (get_songs_by_genre catalog_down (str ''jazz'') 100 2 world0)) =
     [SpSearch (str ''genre:jazz'') (str ''track'') 50 100, Sleep 1,
      SpSearch (str ''genre:jazz'') (str ''track'') 50 100, Sleep 1] \<and>
   catalog_requests (snd (get_songs_by_genre catalog_down (str ''jazz'') 100 2 world0)) = 2"
  using get_songs_catalog_down [OF catalog_down_fails, of "str ''jazz''" 100 2 world0] catalog_down_fails
  by (simp add: catalog_requests_def numeral_2_eq_2 str_def)

text \<open>
  C1 as stated fails for a negative bound: with \<open>max_calls = -1\<close> and a catalog that always
  raises, the number of search requests is 0 and not \<open>max_calls\<close>.
\<close>

theorem get_songs_negative_retries_counterexample:
  "catalog_requests (snd (get_songs_by_genre catalog_down (str ''jazz'') 0 (- 1) world0)) = 0 \<and>
   int (catalog_requests (snd (get_songs_by_genre catalog_down (str ''jazz'') 0 (- 1) world0))) \<noteq> - 1"
  by (simp add: get_songs_by_genre_def retry_loop.simps catalog_requests_def)

section \<open>Transcoder and downloader\<close>

lemma subprocess_run_trace:
  "trace (snd (subprocess_run_ffmpeg env i out w)) =
     trace w @ [Subprocess [str ''ffmpeg'', str ''-i'', path_str i, str ''-ar'', str ''44100'',
                            str ''-ac'', str ''2'', path_str out]]"
  by (simp add: subprocess_run_ffmpeg_def Let_def write_file_def split: proc.splits option.splits)

lemma subprocess_run_files:
  "p \<noteq> out \<Longrightarrow> files (snd (subprocess_run_ffmpeg env i out w)) p = files w p"
  by (simp add: subprocess_run_ffmpeg_def Let_def write_file_def split: proc.splits option.splits)

lemma convert_to_wav_eq:
  "convert_to_wav env i out w = (Inr (), snd (subprocess_run_ffmpeg env i out w))"
  by (simp add: convert_to_wav_def split: prod.splits sum.splits)

text \<open>
  C4, amended. \<open>convert_to_wav\<close> returns normally, with no value (\<open>None\<close>), whatever the
  codec process did: exit code zero, exit code not zero, or binary missing. It never
  raises, and it starts the codec exactly once, as
  \<open>ffmpeg -i <input> -ar 44100 -ac 2 <output>\<close>. The caller cannot tell success from failure
  by the result.
\<close>

theorem convert_to_wav_returns_none:
  "fst (convert_to_wav env input_path output_path w) = Inr () \<and>
   trace (snd (convert_to_wav env input_path output_path w)) =
     trace w @ [Subprocess [str ''ffmpeg'', str ''-i'', path_str input_path, str ''-ar'',
                            str ''44100'', str ''-ac'', str ''2'', path_str output_path]]"
  by (simp add: convert_to_wav_eq subprocess_run_trace)

text \<open>
  C4 as stated fails: a codec that exits with code 0, one that exits with code 1 and a
  missing codec binary all give the caller the same result.
\<close>

theorem convert_to_wav_same_result_counterexample:
  "fst (convert_to_wav (example_env (Inl ApiError) media_ok (Exited 0 (Some [7])))
         (jazz_path @ [str ''a.m4a'']) (jazz_path @ [str ''a.wav'']) world0) =
   fst (convert_to_wav (example_env (Inl ApiError) media_ok (Exited 1 None))
         (jazz_path @ [str ''a.m4a'']) (jazz_path @ [str ''a.wav'']) world0) \<and>
   fst (convert_to_wav (example_env (Inl ApiError) media_ok (Exited 0 (Some [7])))
         (jazz_path @ [str ''a.m4a'']) (jazz_path @ [str ''a.wav'']) world0) =
   fst (convert_to_wav (example_env (Inl ApiError) media_ok Missing)
         (jazz_path @ [str ''a.m4a'']) (jazz_path @ [str ''a.wav'']) world0)"
  by (simp add: convert_to_wav_def subprocess_run_ffmpeg_def example_env_def Let_def)

lemma wav_neq_temp [simp]:
  "wav_file_path env gp s \<noteq> temp_file_path env gp s"
  "temp_file_path env gp s \<noteq> wav_file_path env gp s"
  by (simp_all add: wav_file_path_def temp_file_path_def str_def)

text \<open>
  C2. A candidate whose \<open>.wav\<close> file exists when it is processed is skipped: the world
  after is the world before, so no media-source search, no download, no codec run, and
  every file, the existing one included, is as it was.
\<close>

theorem download_song_skips_existing:
  "exists (wav_file_path env genre_path s) w \<Longrightarrow> download_song env genre_path s w = w"
  by (simp add: download_song_def)

theorem download_song_skips_existing_witness:
  "exists (wav_file_path (example_env (Inl ApiError) media_ok (Exited 0 (Some [7]))) jazz_path so_what)
     (write_file (wav_file_path (example_env (Inl ApiError) media_ok (Exited 0 (Some [7]))) jazz_path so_what)
        [Blob [9]] world0) \<and>
   download_song (example_env (Inl ApiError) media_ok (Exited 0 (Some [7]))) jazz_path so_what
     (write_file (wav_file_path (example_env (Inl ApiError) media_ok (Exited 0 (Some [7]))) jazz_path so_what)
        [Blob [9]] world0) =
   write_file (wav_file_path (example_env (Inl ApiError) media_ok (Exited 0 (Some [7]))) jazz_path so_what)
        [Blob [9]] world0"
proof -
  let ?env = "example_env (Inl ApiError) media_ok (Exited 0 (Some [7]))"
  let ?w = "write_file (wav_file_path ?env jazz_path so_what) [Blob [9]] world0"
  have e: "exists (wav_file_path ?env jazz_path so_what) ?w"
    by (simp add: exists_def write_file_def)
  from download_song_skips_existing[OF e] e show ?thesis by simp
qed

lemma download_song_completes:
  assumes "\<not> exists (wav_file_path env gp s) w" "download_completes env s w"
  shows "\<not> exists (temp_file_path env gp s) (download_song env gp s w)"
    and "codec_runs (download_song env gp s w) = Suc (codec_runs w)"
  using assms
  by (auto simp: download_song_def download_completes_def Let_def convert_to_wav_eq unlink_def exists_def
      codec_runs_def subprocess_run_trace subprocess_run_files write_file_def
      split: sum.splits list.splits dl.splits option.splits)

lemma download_song_fails:
  assumes "\<not> exists (wav_file_path env gp s) w" "\<not> download_completes env s w"
  shows "codec_runs (download_song env gp s w) = codec_runs w"
  using assms
  by (auto simp: download_song_def download_completes_def Let_def codec_runs_def write_file_def
      split: sum.splits list.splits dl.splits option.splits)

lemma download_song_files:
  assumes "p \<noteq> wav_file_path env gp s" "p \<noteq> temp_file_path env gp s"
  shows "files (download_song env gp s w) p = files w p"
  using assms
  by (auto simp: download_song_def Let_def convert_to_wav_eq unlink_def subprocess_run_files write_file_def
      split: sum.splits list.splits dl.splits option.splits)

text \<open>
  C3. For a candidate that is not skipped: when its download completes, the codec is run
  once and afterwards the staged \<open>.m4a\<close> file does not exist, whatever the codec did;
  when its download does not complete (the search or the stream raised, there was no
  result, or the download was interrupted), the codec is not run. So a staged file that
  is there afterwards belongs to a candidate whose download did not complete.
\<close>

theorem staged_file_removed:
  assumes "\<not> exists (wav_file_path env genre_path s) w"
  shows "(download_completes env s w \<longrightarrow>
            \<not> exists (temp_file_path env genre_path s) (download_song env genre_path s w) \<and>
            codec_runs (download_song env genre_path s w) = Suc (codec_runs w)) \<and>
         (\<not> download_completes env s w \<longrightarrow>
            codec_runs (download_song env genre_path s w) = codec_runs w) \<and>
         (exists (temp_file_path env genre_path s) (download_song env genre_path s w) \<longrightarrow>
            \<not> download_completes env s w \<and>
            codec_runs (download_song env genre_path s w) = codec_runs w)"
  using download_song_completes[OF assms] download_song_fails[OF assms] by blast

theorem staged_file_removed_witness:
  "\<not> exists (wav_file_path (example_env (Inl ApiError) media_ok (Exited 1 None)) jazz_path so_what) world0 \<and>
   download_completes (example_env (Inl ApiError) media_ok (Exited 1 None)) so_what world0 \<and>
   \<not> exists (temp_file_path (example_env (Inl ApiError) media_ok (Exited 1 None)) jazz_path so_what)
      (download_song (example_env (Inl ApiError) media_ok (Exited 1 None)) jazz_path so_what world0) \<and>
   codec_runs (download_song (example_env (Inl ApiError) media_ok (Exited 1 None)) jazz_path so_what world0) = 1 \<and>
   \<not> exists (wav_file_path (example_env (Inl ApiError) media_cut Missing) jazz_path so_what) world0 \<and>
   exists (temp_file_path (example_env (Inl ApiError) media_cut Missing) jazz_path so_what)
      (download_song (example_env (Inl ApiError) media_cut Missing) jazz_path so_what world0) \<and>
   \<not> download_completes (example_env (Inl ApiError) media_cut Missing) so_what world0 \<and>
   codec_runs (download_song (example_env (Inl ApiError) media_cut Missing) jazz_path so_what world0) = 0"
proof -
  let ?e1 = "example_env (Inl ApiError) media_ok (Exited 1 None)"
  let ?e2 = "example_env (Inl ApiError) media_cut Missing"
  have a1: "\<not> exists (wav_file_path ?e1 jazz_path so_what) world0"
    and a2: "\<not> exists (wav_file_path ?e2 jazz_path so_what) world0"
    by (simp_all add: exists_def)
  have c1: "download_completes ?e1 so_what world0"
    by (simp add: download_completes_def example_env_def media_ok_def)
  have s2: "exists (temp_file_path ?e2 jazz_path so_what) (download_song ?e2 jazz_path so_what world0)"
    using a2 by (simp add: download_song_def example_env_def media_cut_def Let_def exists_def write_file_def)
  have r0: "codec_runs world0 = 0" by (simp add: codec_runs_def)
  from staged_file_removed[OF a1] staged_file_removed[OF a2] a1 a2 c1 s2 r0
  show ?thesis by simp
qed

section \<open>The manifest over a run\<close>

lemma csv_not_media:
  "CSV_FILE \<noteq> wav_file_path env (TOP_GENRES_PATH @ [genre]) s"
  "CSV_FILE \<noteq> temp_file_path env (TOP_GENRES_PATH @ [genre]) s"
  by (simp_all add: CSV_FILE_def TOP_GENRES_PATH_def wav_file_path_def temp_file_path_def)

lemma download_songs_manifest:
  "files (download_songs env (TOP_GENRES_PATH @ [genre]) songs w) CSV_FILE = files w CSV_FILE"
  by (induction songs arbitrary: w) (simp_all add: download_song_files csv_not_media)

lemma download_youtube_audio_manifest:
  "files (download_youtube_audio env songs genre TOP_GENRES_PATH w) CSV_FILE = files w CSV_FILE"
  by (simp add: download_youtube_audio_def Let_def download_songs_manifest)

lemma build_while_manifest:
  "build_while env genre n m offset total_songs_fetched w = (fs, offset', total', w') \<Longrightarrow>
   \<exists>ss. subseq ss (concat (map batch fs)) \<and>
     extends_manifest (files w CSV_FILE) (map (manifest_row genre) ss) (files w' CSV_FILE)"
proof (induction env genre n m offset total_songs_fetched w arbitrary: fs offset' total' w'
    rule: build_while.induct)
  case (1 env genre n m offset tot w)
  show ?case
  proof (cases "tot < n")
    case False
    with "1.prems" show ?thesis by (intro exI[of _ "[]"]) (simp add: build_while.simps)
  next
    case True
    obtain songs w1 where g: "get_songs_by_genre env genre offset m w = (songs, w1)"
      by (cases "get_songs_by_genre env genre offset m w") auto
    from get_songs_spec[OF g] obtain ss1 where ss1: "subseq ss1 songs"
      "extends_manifest (files w CSV_FILE) (map (manifest_row genre) ss1) (files w1 CSV_FILE)"
      by blast
    show ?thesis
    proof (cases "songs = []")
      case Nil: True
      with True g "1.prems"
      have "fs = [\<lparr>at_offset = offset, fetched_before = tot, batch = songs\<rparr>]" "w' = w1"
        by (auto simp add: build_while.simps)
      with ss1 show ?thesis by (intro exI[of _ ss1]) simp
    next
      case ne: False
      let ?w2 = "download_youtube_audio env songs genre TOP_GENRES_PATH w1"
      obtain fs2 where r: "build_while env genre n m (offset + 50) (tot + int (length songs)) ?w2 =
          (fs2, offset', total', w')"
        and fs: "fs = \<lparr>at_offset = offset, fetched_before = tot, batch = songs\<rparr> # fs2"
        using True g ne "1.prems"
        by (cases "build_while env genre n m (offset + 50) (tot + int (length songs)) ?w2")
           (simp add: build_while.simps)
      from "1.IH"[OF True g[symmetric] ne r] obtain ss2 where ss2:
        "subseq ss2 (concat (map batch fs2))"
        "extends_manifest (files ?w2 CSV_FILE) (map (manifest_row genre) ss2) (files w' CSV_FILE)"
        by blast
      have "extends_manifest (files w1 CSV_FILE) (map (manifest_row genre) ss2) (files w' CSV_FILE)"
        using ss2(2) by (simp add: download_youtube_audio_manifest)
      from extends_manifest_trans[OF ss1(2) this]
      have "extends_manifest (files w CSV_FILE) (map (manifest_row genre) (ss1 @ ss2)) (files w' CSV_FILE)"
        by simp
      moreover have "subseq (ss1 @ ss2) (concat (map batch fs))"
        using list_emb_append_mono[OF ss1(1) ss2(1)] fs by simp
      ultimately show ?thesis by blast
    qed
  qed
qed

lemma is_manifest_row_here: "is_manifest_row (g # gs) (manifest_row g s)"
  by (simp add: is_manifest_row_def manifest_row_def)

lemma is_manifest_row_later: "is_manifest_row gs c \<Longrightarrow> is_manifest_row (g # gs) c"
  by (cases c) (auto simp: is_manifest_row_def split: list.splits)

lemma build_manifest:
  "\<exists>rows. list_all (is_manifest_row genres) rows \<and>
     extends_manifest (files w CSV_FILE) rows (files (build env genres n m w) CSV_FILE)"
proof (induction genres arbitrary: w)
  case Nil
  show ?case by (intro exI[of _ "[]"]) simp
next
  case (Cons genre genres)
  obtain fs offset' total' w1 where b: "build_while env genre n m 0 0 w = (fs, offset', total', w1)"
    by (cases "build_while env genre n m 0 0 w") auto
  from build_while_manifest[OF b] obtain ss where
    w1: "extends_manifest (files w CSV_FILE) (map (manifest_row genre) ss) (files w1 CSV_FILE)"
    by blast
  let ?r1 = "map (manifest_row genre) ss"
  from Cons[of w1] obtain rows where rows: "list_all (is_manifest_row genres) rows"
    "extends_manifest (files w1 CSV_FILE) rows (files (build env genres n m w1) CSV_FILE)" by blast
  have "list_all (is_manifest_row (genre # genres)) (?r1 @ rows)"
    using rows(1) by (auto simp: list_all_iff is_manifest_row_here is_manifest_row_later)
  moreover have "extends_manifest (files w CSV_FILE) (?r1 @ rows)
      (files (build env (genre # genres) n m w) CSV_FILE)"
    using extends_manifest_trans[OF w1 rows(2)] b by simp
  ultimately show ?case by blast
qed

text \<open>
  C7. The header row is \<open>['Genre', 'Song Name', 'Artist Name']\<close>. A call of \<open>save_to_csv\<close>
  returns normally exactly when the file can be opened and the row can be encoded. Whether
  it returns or raises, it changes no file but the one it is given, and that one only by
  appending: an existing file keeps its content and gets the new row at its end (when the
  call returns) or nothing (when it raises); a file that did not exist is still missing
  (when \<open>open\<close> raised) or was created with the header row first, followed by the new
  row (when the call returns) or by nothing (when the row could not be encoded). A fetch
  changes no file but \<open>CSV_FILE\<close>, the one manifest of all genres, appending rows of
  returned songs; and over a whole run of \<open>build\<close> the manifest is its content at the
  start, preceded by the header when it was created in the run, followed by rows
  \<open>[genre, song, artist]\<close>: no row is rewritten or removed, and the header is written
  once, on creation.
\<close>

theorem save_to_csv_append_only:
  "header = [str ''Genre'', str ''Song Name'', str ''Artist Name''] \<and>
   (fst (save_to_csv env file_path genre sn an w) = Inr ()) =
     (open_error env w file_path = None \<and> list_all encodable [genre, sn, an]) \<and>
   trace (snd (save_to_csv env file_path genre sn an w)) = trace w \<and>
   files (snd (save_to_csv env file_path genre sn an w)) =
     (files w)(file_path := files (snd (save_to_csv env file_path genre sn an w)) file_path) \<and>
   extends_manifest (files w file_path)
     (case fst (save_to_csv env file_path genre sn an w) of
        Inl e \<Rightarrow> [] | Inr u \<Rightarrow> [Row [genre, sn, an]])
     (files (snd (save_to_csv env file_path genre sn an w)) file_path) \<and>
   (\<exists>ss. subseq ss (fst (get_songs_by_genre env genre offset max_calls w)) \<and>
      files (snd (get_songs_by_genre env genre offset max_calls w)) =
        (files w)(CSV_FILE := files (snd (get_songs_by_genre env genre offset max_calls w)) CSV_FILE) \<and>
      extends_manifest (files w CSV_FILE) (map (manifest_row genre) ss)
        (files (snd (get_songs_by_genre env genre offset max_calls w)) CSV_FILE)) \<and>
   (\<exists>rows. list_all (is_manifest_row genres) rows \<and>
      extends_manifest (files w CSV_FILE) rows
        (files (build env genres songs_per_genre max_api_calls w) CSV_FILE))"
proof -
  have s: "save_to_csv env file_path genre sn an w =
      (fst (save_to_csv env file_path genre sn an w), snd (save_to_csv env file_path genre sn an w))"
    by simp
  have g: "get_songs_by_genre env genre offset max_calls w =
      (fst (get_songs_by_genre env genre offset max_calls w),
       snd (get_songs_by_genre env genre offset max_calls w))" by simp
  have h: "header = [str ''Genre'', str ''Song Name'', str ''Artist Name'']"
    by (simp add: header_def)
  from h save_to_csv_spec[OF s] get_songs_spec[OF g]
    build_manifest[of genres w env songs_per_genre max_api_calls]
  show ?thesis by blast
qed

lemma save_examples:
  "files (snd (save_to_csv jazz_env CSV_FILE (str ''rock'') (str ''T.N.T'') (str ''AC/DC'')
      (snd (save_to_csv jazz_env CSV_FILE (str ''jazz'') (str ''So What'') (str ''Miles Davis'') world0))))
     CSV_FILE =
     Some [Row [str ''Genre'', str ''Song Name'', str ''Artist Name''],
           Row [str ''jazz'', str ''So What'', str ''Miles Davis''],
           Row [str ''rock'', str ''T.N.T'', str ''AC/DC'']]"
  "save_to_csv (fresh_dir jazz_env) CSV_FILE (str ''jazz'') (str ''So What'') (str ''Miles Davis'') world0 =
     (Inl FileNotFoundError, world0)"
  "fst (save_to_csv jazz_env CSV_FILE (str ''jazz'') [55296] (str ''Miles Davis'') world0) =
     Inl UnicodeEncodeError"
  "files (snd (save_to_csv jazz_env CSV_FILE (str ''jazz'') [55296] (str ''Miles Davis'') world0)) CSV_FILE =
     Some [Row [str ''Genre'', str ''Song Name'', str ''Artist Name'']]"
  by (simp_all add: save_to_csv_def jazz_env_def example_env_def fresh_dir_def encodable_def str_def
      exists_def open_append_def writerow_def write_file_def header_def Let_def
      CSV_FILE_def TOP_GENRES_PATH_def)

theorem save_to_csv_append_only_witness:
  "header = [str ''Genre'', str ''Song Name'', str ''Artist Name''] \<and>
   files (snd (save_to_csv jazz_env CSV_FILE (str ''rock'') (str ''T.N.T'') (str ''AC/DC'')
      (snd (save_to_csv jazz_env CSV_FILE (str ''jazz'') (str ''So What'') (str ''Miles Davis'') world0))))
     CSV_FILE =
     Some [Row [str ''Genre'', str ''Song Name'', str ''Artist Name''],
           Row [str ''jazz'', str ''So What'', str ''Miles Davis''],
           Row [str ''rock'', str ''T.N.T'', str ''AC/DC'']] \<and>
   save_to_csv (fresh_dir jazz_env) CSV_FILE (str ''jazz'') (str ''So What'') (str ''Miles Davis'') world0 =
     (Inl FileNotFoundError, world0) \<and>
   fst (save_to_csv jazz_env CSV_FILE (str ''jazz'') [55296] (str ''Miles Davis'') world0) =
     Inl UnicodeEncodeError \<and>
   files (snd (save_to_csv jazz_env CSV_FILE (str ''jazz'') [55296] (str ''Miles Davis'') world0)) CSV_FILE =
     Some [Row [str ''Genre'', str ''Song Name'', str ''Artist Name'']]"
  using save_to_csv_append_only [of jazz_env CSV_FILE "str ''jazz''" "str ''So What''"
      "str ''Miles Davis''" world0 0 0 "[]" 0 0] save_examples
  by simp

section \<open>Pipeline driver\<close>

lemma build_while_spec:
  "build_while env genre n m offset total_songs_fetched w = (fs, offset', total', w') \<Longrightarrow>
     (\<forall>i<length fs. at_offset (fs ! i) = offset + 50 * int i \<and>
         fetched_before (fs ! i) = total_songs_fetched + sum_list (map batch_size (take i fs)) \<and>
         fetched_before (fs ! i) < n) \<and>
     (\<forall>i. Suc i < length fs \<longrightarrow> batch (fs ! i) \<noteq> []) \<and>
     (\<forall>f\<in>set fs. \<exists>w0. batch f = fst (get_songs_by_genre env genre (at_offset f) m w0)) \<and>
     total' = total_songs_fetched + sum_list (map batch_size fs) \<and>
     offset' = offset + 50 * int (length (filter (\<lambda>f. batch f \<noteq> []) fs)) \<and>
     (n \<le> total' \<or> (fs \<noteq> [] \<and> batch (last fs) = []))"
proof (induction env genre n m offset total_songs_fetched w arbitrary: fs offset' total' w'
    rule: build_while.induct)
  case (1 env genre n m offset tot w)
  show ?case
  proof (cases "tot < n")
    case False
    with "1.prems" show ?thesis by (simp add: build_while.simps)
  next
    case True
    obtain songs w1 where g: "get_songs_by_genre env genre offset m w = (songs, w1)"
      by (cases "get_songs_by_genre env genre offset m w") auto
    let ?f = "\<lparr>at_offset = offset, fetched_before = tot, batch = songs\<rparr>"
    show ?thesis
    proof (cases "songs = []")
      case Nil: True
      with True g "1.prems" have "fs = [?f]" "offset' = offset" "total' = tot"
        by (auto simp add: build_while.simps)
      with Nil True g show ?thesis by (auto intro: exI[of _ w])
    next
      case ne: False
      let ?w2 = "download_youtube_audio env songs genre TOP_GENRES_PATH w1"
      obtain fs2 where r: "build_while env genre n m (offset + 50) (tot + int (length songs)) ?w2 =
          (fs2, offset', total', w')"
        and fs: "fs = ?f # fs2"
        using True g ne "1.prems"
        by (cases "build_while env genre n m (offset + 50) (tot + int (length songs)) ?w2")
           (simp add: build_while.simps)
      note IH = "1.IH"[OF True g[symmetric] ne r]
      have a: "\<forall>i<length fs. at_offset (fs ! i) = offset + 50 * int i \<and>
         fetched_before (fs ! i) = tot + sum_list (map batch_size (take i fs)) \<and>
         fetched_before (fs ! i) < n"
      proof (intro allI impI)
        fix i assume i: "i < length fs"
        show "at_offset (fs ! i) = offset + 50 * int i \<and>
         fetched_before (fs ! i) = tot + sum_list (map batch_size (take i fs)) \<and>
         fetched_before (fs ! i) < n"
        proof (cases i)
          case 0
          with fs True show ?thesis by simp
        next
          case (Suc j)
          with i fs have "j < length fs2" by simp
          with IH have "at_offset (fs2 ! j) = offset + 50 + 50 * int j \<and>
            fetched_before (fs2 ! j) =
              tot + int (length songs) + sum_list (map batch_size (take j fs2)) \<and>
            fetched_before (fs2 ! j) < n" by blast
          with Suc fs show ?thesis by simp
        qed
      qed
      have b: "\<forall>i. Suc i < length fs \<longrightarrow> batch (fs ! i) \<noteq> []"
      proof (intro allI impI)
        fix i assume i: "Suc i < length fs"
        show "batch (fs ! i) \<noteq> []"
        proof (cases i)
          case 0
          with fs ne show ?thesis by simp
        next
          case (Suc j)
          with i fs have "Suc j < length fs2" by simp
          with IH have "batch (fs2 ! j) \<noteq> []" by blast
          with Suc fs show ?thesis by simp
        qed
      qed
      have c: "\<forall>f\<in>set fs. \<exists>w0. batch f = fst (get_songs_by_genre env genre (at_offset f) m w0)"
        using IH fs g by (auto intro: exI[of _ w])
      have d: "total' = tot + sum_list (map batch_size fs)"
        using IH fs by simp
      have e: "offset' = offset + 50 * int (length (filter (\<lambda>f. batch f \<noteq> []) fs))"
        using IH fs ne by simp
      have f: "n \<le> total' \<or> (fs \<noteq> [] \<and> batch (last fs) = [])"
        using IH fs by auto
      from a b c d e f show ?thesis by blast
    qed
  qed
qed

lemma jazz_run_eval:
  "map at_offset (fst jazz_run) = [0, 50]"
  "map fetched_before (fst jazz_run) = [0, 1]"
  "map batch (fst jazz_run) = [[so_what], [so_what]]"
  "fst (snd jazz_run) = 100"
  "fst (snd (snd jazz_run)) = 2"
  "codec_runs (snd (snd (snd jazz_run))) = 0"
  by (simp_all add: jazz_run_def build_while.simps get_songs_by_genre_def retry_loop.simps attempt_def
      jazz_env_def example_env_def page_of_def response_items_def short_track_def long_track_def
      so_what_def Let_def download_song_def exists_def wav_file_path_def
      download_youtube_audio_def save_to_csv_def encodable_def str_def open_append_def
      writerow_def write_file_def CSV_FILE_def TOP_GENRES_PATH_def codec_runs_def)

text \<open>
  C5. The loop of \<open>build\<close> for one genre always ends, and for the fetches it made, in
  order: fetch number \<open>i\<close> (from 0) is made at offset \<open>50 * i\<close>, with \<open>total_songs_fetched\<close>
  equal to the sum of the sizes of the batches fetched before it and still below the
  target; every fetch but the last returned a non-empty batch; each batch is what
  \<open>get_songs_by_genre\<close> returned at that offset. At the end \<open>total_songs_fetched\<close> is the
  sum of the sizes of all batches, whatever became of the downloads, \<open>offset\<close> is 50 times
  the number of non-empty batches, and either \<open>total_songs_fetched\<close> has reached the
  target or the last fetch returned an empty batch.
\<close>

theorem build_while_pagination:
  assumes "build_while env genre songs_per_genre max_api_calls 0 0 w = (fs, offset', total', w')"
  shows "(\<forall>i<length fs. at_offset (fs ! i) = 50 * int i \<and>
            fetched_before (fs ! i) = sum_list (map batch_size (take i fs)) \<and>
            fetched_before (fs ! i) < songs_per_genre) \<and>
         (\<forall>i. Suc i < length fs \<longrightarrow> batch (fs ! i) \<noteq> []) \<and>
         (\<forall>f\<in>set fs. \<exists>w0. batch f = fst (get_songs_by_genre env genre (at_offset f) max_api_calls w0)) \<and>
         total' = sum_list (map batch_size fs) \<and>
         offset' = 50 * int (length (filter (\<lambda>f. batch f \<noteq> []) fs)) \<and>
         (songs_per_genre \<le> total' \<or> (fs \<noteq> [] \<and> batch (last fs) = []))"
proof -
  note s = build_while_spec[OF assms, unfolded add.left_neutral]
  show ?thesis by (rule s)
qed

theorem build_while_pagination_witness:
  "length (fst jazz_run) = 2 \<and>
   at_offset (fst jazz_run ! 1) = 50 \<and> fetched_before (fst jazz_run ! 1) < 2 \<and>
   map at_offset (fst jazz_run) = [0, 50] \<and>
   map fetched_before (fst jazz_run) = [0, 1] \<and>
   map batch (fst jazz_run) = [[so_what], [so_what]] \<and>
   fst (snd jazz_run) = 100 \<and> fst (snd (snd jazz_run)) = 2 \<and>
   codec_runs (snd (snd (snd jazz_run))) = 0"
proof -
  have len: "length (fst jazz_run) = 2"
    using jazz_run_eval(1) by (metis length_map length_Cons list.size(3) numeral_2_eq_2)
  then have one: "1 < length (fst jazz_run)" by simp
  have "build_while jazz_env (str ''jazz'') 2 5 0 0 world0 =
      (fst jazz_run, fst (snd jazz_run), fst (snd (snd jazz_run)), snd (snd (snd jazz_run)))"
    by (simp add: jazz_run_def)
  note t = build_while_pagination[OF this]
  from t have "\<forall>i<length (fst jazz_run). at_offset (fst jazz_run ! i) = 50 * int i \<and>
      fetched_before (fst jazz_run ! i) = sum_list (map batch_size (take i (fst jazz_run))) \<and>
      fetched_before (fst jazz_run ! i) < 2"
    by (rule conjunct1)
  from this[rule_format, OF one]
  have "at_offset (fst jazz_run ! 1) = 50" "fetched_before (fst jazz_run ! 1) < 2"
    by simp_all
  then show ?thesis using len jazz_run_eval by simp
qed

end
